theory Spec2Isabelle
  imports Main "HOL-Library.Sublist" "HOL-Library.AList"
begin

section \<open>QA coaching agent: the evaluation cycle of \<^verbatim>\<open>app.py\<close>\<close>

text \<open>
  The program builds a prompt from a ticket transcript, sends it to a text-generation
  model, cuts a JSON object out of the free-text answer with the regular expression
  \<^verbatim>\<open>\{.*\}\<close> (flag DOTALL), parses it with \<^verbatim>\<open>json.loads\<close>, checks two top-level keys and
  the key set of \<^verbatim>\<open>criteria_scores\<close>, and returns the parsed object.

  Python strings are modelled as \<^typ>\<open>string\<close>, read as the UTF-8 encoding of the text: the
  characters the program inspects (braces, quotes, JSON punctuation) are ASCII, and no byte
  of a multi-byte UTF-8 sequence is an ASCII byte, so positions of braces and the spans
  between them correspond. Python integers are \<^typ>\<open>int\<close>.
\<close>

subsection \<open>Characters\<close>

definition nl :: char where
  "nl = CHR 0x0A"

definition dquote :: char where
  "dquote = CHR 0x22"

definition backslash :: char where
  "backslash = CHR 0x5C"

definition lbrace :: char where
  "lbrace = CHR ''{''"

definition rbrace :: char where
  "rbrace = CHR ''}''"

subsection \<open>Configuration constants\<close>

definition QA_CRITERIA :: "string list" where
  "QA_CRITERIA =
     [''accuracy'', ''empathy_and_tone'', ''clarity'', ''actionability'',
      ''escalation_awareness'']"

text \<open>\<^verbatim>\<open>"\n".join(lines)\<close>: the lines of a text separated by newlines.\<close>

fun join_lines :: "string list \<Rightarrow> string" where
  "join_lines [] = []"
| "join_lines [l] = l"
| "join_lines (l # ls) = l @ nl # join_lines ls"

text \<open>
  \<^verbatim>\<open>SYSTEM_GUIDE\<close> is the triple-quoted text after \<^verbatim>\<open>textwrap.dedent\<close> (which removes
  nothing here: the first line has no indentation) and \<^verbatim>\<open>strip\<close> (which removes the
  leading and the trailing newline). The dash in \<^verbatim>\<open>1-5\<close> is U+2013, three bytes in UTF-8.
\<close>

definition SYSTEM_GUIDE :: string where
  \<open>SYSTEM_GUIDE = join_lines
     [''You are a meticulous QA coach for SaaS support agents.'',
      ''Read the entire ticket transcript (customer, agent, follow-ups).'',
      ''Score the agent responses on the following 5 criteria from 1''
        @ [CHR 0xE2, CHR 0x80, CHR 0x93] @ ''5:'',
      ''- accuracy'',
      ''- empathy_and_tone'',
      ''- clarity'',
      ''- actionability'',
      ''- escalation_awareness'',
      '''',
      ''Rules:'',
      ''- Return ONLY valid JSON. No code fences, no commentary.'',
      ''- JSON schema:'',
      ''  {'',
      ''    "criteria_scores": {"accuracy": int, "empathy_and_tone": int, "clarity": int, "actionability": int, "escalation_awareness": int},'',
      ''    "overall_score": int,'',
      ''    "coaching_summary": "string with 2-4 crisp, actionable points",'',
      ''    "suggested_1on1_questions": ["short question 1", "short question 2"]'',
      ''  }'',
      ''- overall_score = sum(criteria)'',
      ''- coaching summary should be specific and actionable'']\<close>

subsection \<open>The prompt\<close>

text \<open>
  The f-string of \<^verbatim>\<open>evaluate_ticket\<close>: the guide, an empty line, the heading line, the
  transcript, and the newline before the closing triple quote.
\<close>

definition transcript_heading :: string where
  "transcript_heading = [nl, nl] @ ''TICKET TRANSCRIPT:'' @ [nl]"

definition build_prompt :: "string \<Rightarrow> string" where
  "build_prompt ticket_text = SYSTEM_GUIDE @ transcript_heading @ ticket_text @ [nl]"

subsection \<open>The regular expression search\<close>

text \<open>
  \<^verbatim>\<open>re.search(r"\{.*\}", raw, re.DOTALL)\<close>. With DOTALL the dot matches every character,
  newline included. The matcher tries the start positions from left to right; at a
  start position it needs an opening brace, then lets \<^verbatim>\<open>.*\<close> take as many characters
  as possible and gives characters back until a closing brace follows.

  \<open>greedy_to_rbrace s\<close> is the text matched by \<^verbatim>\<open>.*\}\<close> at the start of \<open>s\<close>: the
  recursive call (the star taking one more character) is preferred over stopping.
\<close>

fun greedy_to_rbrace :: "string \<Rightarrow> string option" where
  "greedy_to_rbrace [] = None"
| "greedy_to_rbrace (c # cs) =
     (case greedy_to_rbrace cs of
        Some m \<Rightarrow> Some (c # m)
      | None \<Rightarrow> if c = rbrace then Some [c] else None)"

text \<open>The whole pattern anchored at the start of \<open>s\<close>.\<close>

fun match_here :: "string \<Rightarrow> string option" where
  "match_here [] = None"
| "match_here (c # cs) =
     (if c = lbrace then map_option (\<lambda>m. c # m) (greedy_to_rbrace cs) else None)"

text \<open>The search: the match at the leftmost position that has one; \<open>group(0)\<close> of it.\<close>

fun re_search :: "string \<Rightarrow> string option" where
  "re_search [] = None"
| "re_search (c # cs) =
     (case match_here (c # cs) of
        Some m \<Rightarrow> Some m
      | None \<Rightarrow> re_search cs)"

subsection \<open>JSON values and \<^verbatim>\<open>json.loads\<close>\<close>

text \<open>
  The values \<^verbatim>\<open>json.loads\<close> builds: \<^verbatim>\<open>None\<close>, booleans, integers, floats, strings,
  lists and dictionaries. A dictionary is an association list with distinct keys in
  insertion order. A float is kept as the text of its literal (the binary value Python
  computes from it plays no role in this program).

  The decoder is the one of the Python standard library with its default settings: the
  JSON grammar, the extra literals \<^verbatim>\<open>NaN\<close>, \<^verbatim>\<open>Infinity\<close> and \<^verbatim>\<open>-Infinity\<close>, strict
  strings (no raw control character), a later duplicate key overwriting the earlier
  value, nothing but white space allowed after the value. Every function works on the
  text that is left and returns the value with the number of characters it consumed,
  as the library returns the end index; \<open>None\<close> is \<^verbatim>\<open>JSONDecodeError\<close>. The limits of
  the interpreter (recursion depth, the number of digits of an integer literal) are not
  part of the model.
\<close>

datatype json =
    JNull
  | JBool bool
  | JInt int
  | JFloat string
  | JString string
  | JArray "json list"
  | JObject "(string \<times> json) list"

text \<open>White space between tokens, and a test for a literal at the start of the text.\<close>

definition is_ws :: "char \<Rightarrow> bool" where
  "is_ws c = (c = CHR '' '' \<or> c = CHR 0x09 \<or> c = CHR 0x0A \<or> c = CHR 0x0D)"

definition ws_len :: "string \<Rightarrow> nat" where
  "ws_len s = length (takeWhile is_ws s)"

definition starts_with :: "string \<Rightarrow> string \<Rightarrow> bool" where
  "starts_with p s = (take (length p) s = p)"

text \<open>Digits, and the four hexadecimal digits of a \<^verbatim>\<open>\uXXXX\<close> escape.\<close>

definition is_digit :: "char \<Rightarrow> bool" where
  "is_digit c = (c \<in> set ''0123456789'')"

definition digit_val :: "char \<Rightarrow> nat" where
  "digit_val c = of_char c - 48"

definition digits_val :: "string \<Rightarrow> nat" where
  "digits_val ds = foldl (\<lambda>a c. 10 * a + digit_val c) 0 ds"

definition hex_val :: "char \<Rightarrow> nat option" where
  "hex_val c =
     (if is_digit c then Some (of_char c - 48)
      else if c \<in> set ''abcdef'' then Some (of_char c - 87)
      else if c \<in> set ''ABCDEF'' then Some (of_char c - 55)
      else None)"

definition hex4 :: "string \<Rightarrow> nat option" where
  "hex4 s =
     (if length s < 4 \<or> (\<exists>c \<in> set (take 4 s). hex_val c = None) then None
      else Some (foldl (\<lambda>a c. 16 * a + the (hex_val c)) 0 (take 4 s)))"

text \<open>
  An escaped code point becomes its UTF-8 bytes. A high surrogate followed by an
  escaped low surrogate is one code point above U+FFFF; \<open>decode_u\<close> returns the code
  point and the number of characters read after \<^verbatim>\<open>\u\<close>.
\<close>

definition utf8_encode :: "nat \<Rightarrow> string" where
  "utf8_encode u =
     (if u < 0x80 then [char_of u]
      else if u < 0x800 then [char_of (0xC0 + u div 64), char_of (0x80 + u mod 64)]
      else if u < 0x10000 then
        [char_of (0xE0 + u div 4096), char_of (0x80 + u div 64 mod 64), char_of (0x80 + u mod 64)]
      else
        [char_of (0xF0 + u div 262144), char_of (0x80 + u div 4096 mod 64),
         char_of (0x80 + u div 64 mod 64), char_of (0x80 + u mod 64)])"

definition decode_u :: "string \<Rightarrow> (nat \<times> nat) option" where
  "decode_u s =
     (case hex4 s of
        None \<Rightarrow> None
      | Some u \<Rightarrow>
          if 0xD800 \<le> u \<and> u \<le> 0xDBFF \<and> take 2 (drop 4 s) = [backslash, CHR ''u''] then
            (case hex4 (drop 6 s) of
               None \<Rightarrow> None
             | Some u2 \<Rightarrow>
                 if 0xDC00 \<le> u2 \<and> u2 \<le> 0xDFFF
                 then Some (0x10000 + ((u - 0xD800) * 1024 + (u2 - 0xDC00)), 10)
                 else Some (u, 4))
          else Some (u, 4))"

definition unescape :: "char \<Rightarrow> char option" where
  "unescape e =
     (if e = dquote \<or> e = backslash \<or> e = CHR ''/'' then Some e
      else if e = CHR ''b'' then Some (CHR 0x08)
      else if e = CHR ''f'' then Some (CHR 0x0C)
      else if e = CHR ''n'' then Some (CHR 0x0A)
      else if e = CHR ''r'' then Some (CHR 0x0D)
      else if e = CHR ''t'' then Some (CHR 0x09)
      else None)"

text \<open>
  \<open>scanstring\<close> reads a string literal after its opening quote and returns its content
  and the number of characters read, the closing quote included.
\<close>

fun scanstring :: "string \<Rightarrow> (string \<times> nat) option" where
  "scanstring [] = None"
| "scanstring (c # cs) =
     (if c = dquote then Some ([], 1)
      else if c = backslash then
        (case cs of
           [] \<Rightarrow> None
         | e # es \<Rightarrow>
             if e = CHR ''u'' then
               (case decode_u es of
                  None \<Rightarrow> None
                | Some (u, n) \<Rightarrow>
                    map_option (\<lambda>(str, k). (utf8_encode u @ str, 2 + n + k))
                      (scanstring (drop n es)))
             else
               (case unescape e of
                  None \<Rightarrow> None
                | Some ch \<Rightarrow> map_option (\<lambda>(str, k). (ch # str, 2 + k)) (scanstring es)))
      else if (of_char c :: nat) < 0x20 then None
      else map_option (\<lambda>(str, k). (c # str, 1 + k)) (scanstring cs))"

text \<open>
  The number pattern of the decoder: an optional minus sign, \<^verbatim>\<open>0\<close> or a digit sequence
  that does not start with \<^verbatim>\<open>0\<close>, an optional fraction and an optional exponent, each
  taken only when complete. Without fraction and exponent the literal is an integer.
\<close>

definition scan_number :: "string \<Rightarrow> (json \<times> nat) option" where
  "scan_number s =
     (let neg = starts_with ''-'' s;
          s1 = (if neg then drop 1 s else s);
          ip = (if starts_with ''0'' s1 then ''0'' else takeWhile is_digit s1)
      in if ip = [] then None
         else
           let s2 = drop (length ip) s1;
               fd = takeWhile is_digit (drop 1 s2);
               frac = (if starts_with ''.'' s2 \<and> fd \<noteq> [] then CHR ''.'' # fd else []);
               s3 = drop (length frac) s2;
               sg = (if starts_with ''+'' (drop 1 s3) \<or> starts_with ''-'' (drop 1 s3)
                     then take 1 (drop 1 s3) else []);
               ed = takeWhile is_digit (drop (1 + length sg) s3);
               ex = (if (starts_with ''e'' s3 \<or> starts_with ''E'' s3) \<and> ed \<noteq> []
                     then take 1 s3 @ sg @ ed else []);
               lit = (if neg then ''-'' else []) @ ip @ frac @ ex
           in Some (if frac = [] \<and> ex = []
                    then JInt ((if neg then - 1 else 1) * int (digits_val ip))
                    else JFloat lit,
                    length lit))"


text \<open>
  \<open>parse_value\<close> reads one value at the start of the text. \<open>parse_members\<close> reads the
  members of an object from the opening quote of a key to the closing brace, and
  \<open>parse_elems\<close> the elements of an array up to the closing bracket; both carry what
  they have read so far. After a comma a further member or element must follow.
\<close>

lemma starts_with_nonempty: "starts_with [x] s \<Longrightarrow> s \<noteq> []"
  by (auto simp: starts_with_def)

function (sequential)
  parse_value :: "string \<Rightarrow> (json \<times> nat) option" and
  parse_members :: "(string \<times> json) list \<Rightarrow> string \<Rightarrow> (json \<times> nat) option" and
  parse_elems :: "json list \<Rightarrow> string \<Rightarrow> (json \<times> nat) option"
where
  "parse_value [] = None"
| "parse_value (c # cs) =
     (if c = dquote then
        map_option (\<lambda>(str, k). (JString str, 1 + k)) (scanstring cs)
      else if c = lbrace then
        (let w = ws_len cs; r = drop w cs
         in if starts_with ''}'' r then Some (JObject [], 1 + w + 1)
            else map_option (\<lambda>(obj, k). (obj, 1 + w + k)) (parse_members [] r))
      else if c = CHR ''['' then
        (let w = ws_len cs; r = drop w cs
         in if starts_with '']'' r then Some (JArray [], 1 + w + 1)
            else map_option (\<lambda>(arr, k). (arr, 1 + w + k)) (parse_elems [] r))
      else if starts_with ''null'' (c # cs) then Some (JNull, 4)
      else if starts_with ''true'' (c # cs) then Some (JBool True, 4)
      else if starts_with ''false'' (c # cs) then Some (JBool False, 5)
      else
        (case scan_number (c # cs) of
           Some num \<Rightarrow> Some num
         | None \<Rightarrow>
             if starts_with ''NaN'' (c # cs) then Some (JFloat ''NaN'', 3)
             else if starts_with ''Infinity'' (c # cs) then Some (JFloat ''Infinity'', 8)
             else if starts_with ''-Infinity'' (c # cs) then Some (JFloat ''-Infinity'', 9)
             else None))"
| "parse_members acc [] = None"
| "parse_members acc (c # cs) =
     (if c \<noteq> dquote then None
      else
        case scanstring cs of
          None \<Rightarrow> None
        | Some (key, k) \<Rightarrow>
            let w1 = ws_len (drop k cs); r1 = drop w1 (drop k cs)
            in if \<not> starts_with '':'' r1 then None
               else
                 let w2 = ws_len (drop 1 r1); vin = drop w2 (drop 1 r1)
                 in case parse_value vin of
                      None \<Rightarrow> None
                    | Some (v, kv) \<Rightarrow>
                        let acc' = AList.update key v acc;
                            w3 = ws_len (drop kv vin); r3 = drop w3 (drop kv vin);
                            n = 1 + k + w1 + 1 + w2 + kv + w3
                        in if starts_with ''}'' r3 then Some (JObject acc', n + 1)
                           else if starts_with '','' r3 then
                             (let w4 = ws_len (drop 1 r3)
                              in map_option (\<lambda>(obj, m). (obj, n + 1 + w4 + m))
                                   (parse_members acc' (drop w4 (drop 1 r3))))
                           else None)"
| "parse_elems acc s =
     (case parse_value s of
        None \<Rightarrow> None
      | Some (v, kv) \<Rightarrow>
          let acc' = acc @ [v];
              w1 = ws_len (drop kv s); r1 = drop w1 (drop kv s);
              n = kv + w1
          in if starts_with '']'' r1 then Some (JArray acc', n + 1)
             else if starts_with '','' r1 then
               (let w2 = ws_len (drop 1 r1)
                in map_option (\<lambda>(arr, m). (arr, n + 1 + w2 + m))
                     (parse_elems acc' (drop w2 (drop 1 r1))))
             else None)"
  by pat_completeness auto

termination
  apply (relation "measure (\<lambda>x. case x of
            Inl s \<Rightarrow> 2 * length s
          | Inr (Inl (acc, s)) \<Rightarrow> 2 * length s
          | Inr (Inr (acc, s)) \<Rightarrow> 2 * length s + 1)")
       apply (auto dest!: starts_with_nonempty)
  done

text \<open>
  \<^verbatim>\<open>json.loads\<close> on a \<^verbatim>\<open>str\<close>: a leading byte order mark is refused, white space is
  skipped, one value is read, and only white space may follow it.
\<close>

definition utf8_bom :: string where
  "utf8_bom = [CHR 0xEF, CHR 0xBB, CHR 0xBF]"

definition json_loads :: "string \<Rightarrow> json option" where
  "json_loads s =
     (if starts_with utf8_bom s then None
      else
        let w = ws_len s
        in case parse_value (drop w s) of
             None \<Rightarrow> None
           | Some (obj, k) \<Rightarrow>
               let r = drop k (drop w s)
               in if drop (ws_len r) r = [] then Some obj else None)"

subsection \<open>Errors\<close>

text \<open>
  What \<^verbatim>\<open>evaluate_ticket\<close> can raise. The three \<^verbatim>\<open>ValueError\<close>s of the function are told
  apart by their message: \<open>NoJsonFound\<close> carries the message text (it ends with the raw
  response), \<open>MissingKeys\<close> carries the object that the message prints, \<open>CriteriaMismatch\<close>
  has a constant message. \<open>MalformedJson\<close> is the \<^verbatim>\<open>JSONDecodeError\<close> of \<^verbatim>\<open>json.loads\<close>.
  \<open>TypeError\<close>, \<open>KeyError\<close> and \<open>AttributeError\<close> are what Python raises when \<^verbatim>\<open>in\<close>,
  indexing or \<^verbatim>\<open>.keys()\<close> is applied to a value that does not support it.
\<close>

datatype error =
    NoJsonFound string
  | MalformedJson
  | MissingKeys json
  | CriteriaMismatch
  | TypeError
  | KeyError
  | AttributeError

definition no_json_message :: "string \<Rightarrow> string" where
  "no_json_message raw =
     ''Model did not return JSON.'' @ [nl] @ ''Raw output:'' @ [nl] @ raw"

subsection \<open>Python operations on the parsed value\<close>

text \<open>
  \<^verbatim>\<open>key in data\<close>: a key of a dictionary, an element of a list, a substring of a string;
  the other values are not containers.
\<close>

fun py_in :: "string \<Rightarrow> json \<Rightarrow> error + bool" where
  "py_in key (JObject kvs) = Inr (key \<in> fst ` set kvs)"
| "py_in key (JArray xs) = Inr (JString key \<in> set xs)"
| "py_in key (JString s) = Inr (sublist key s)"
| "py_in key _ = Inl TypeError"

text \<open>
  \<^verbatim>\<open>data[key]\<close> with a string key: the value of the key in a dictionary; lists and
  strings take no string index.
\<close>

fun py_getitem :: "json \<Rightarrow> string \<Rightarrow> error + json" where
  "py_getitem (JObject kvs) key =
     (case map_of kvs key of Some v \<Rightarrow> Inr v | None \<Rightarrow> Inl KeyError)"
| "py_getitem _ key = Inl TypeError"

text \<open>\<^verbatim>\<open>value.keys()\<close>: only a dictionary has the method.\<close>

fun py_keys :: "json \<Rightarrow> error + string list" where
  "py_keys (JObject kvs) = Inr (map fst kvs)"
| "py_keys _ = Inl AttributeError"

subsection \<open>\<^verbatim>\<open>evaluate_ticket\<close>\<close>

text \<open>The basic validation at the end of the function.\<close>

definition basic_validation :: "json \<Rightarrow> error + json" where
  "basic_validation data =
     (case py_in ''criteria_scores'' data of
        Inl e \<Rightarrow> Inl e
      | Inr has_scores \<Rightarrow>
     (case py_in ''overall_score'' data of
        Inl e \<Rightarrow> Inl e
      | Inr has_overall \<Rightarrow>
          if \<not> has_scores \<or> \<not> has_overall then Inl (MissingKeys data)
          else
     (case py_getitem data ''criteria_scores'' of
        Inl e \<Rightarrow> Inl e
      | Inr scores \<Rightarrow>
     (case py_keys scores of
        Inl e \<Rightarrow> Inl e
      | Inr ks \<Rightarrow>
          if set ks \<noteq> set QA_CRITERIA then Inl CriteriaMismatch
          else Inr data))))"

text \<open>
  The model service is a parameter: a function from the prompt to the text of the
  response, \<open>None\<close> when the response has no text (\<^verbatim>\<open>resp.text or ""\<close> makes that the
  empty string). A failure of the call itself is raised by the service library before
  any line of the extraction runs, and is not a case of this function.
\<close>

definition evaluate_ticket :: "(string \<Rightarrow> string option) \<Rightarrow> string \<Rightarrow> error + json" where
  "evaluate_ticket model ticket_text =
     (let prompt = build_prompt ticket_text;
          raw = (case model prompt of None \<Rightarrow> [] | Some txt \<Rightarrow> txt)
      in case re_search raw of
           None \<Rightarrow> Inl (NoJsonFound (no_json_message raw))
         | Some span \<Rightarrow>
             (case json_loads span of
                None \<Rightarrow> Inl MalformedJson
              | Some data \<Rightarrow> basic_validation data))"

text \<open>A model service that answers every prompt with the same text.\<close>

definition canned :: "string \<Rightarrow> string \<Rightarrow> string option" where
  "canned raw prompt = Some raw"

subsection \<open>The span in the words of the specification\<close>

text \<open>
  The specification describes the extraction without the regular expression: the span
  from the leftmost opening brace through the rightmost closing brace. \<open>leftmost\<close> and
  \<open>rightmost\<close> are the positions of the first and the last occurrence of a character,
  and \<open>greedy_span\<close> is the text between them, both ends included; there is none when
  a brace is missing or the last closing brace stands before the first opening one.
\<close>

definition leftmost :: "char \<Rightarrow> string \<Rightarrow> nat option" where
  "leftmost c s =
     (if c \<in> set s then Some (length (takeWhile (\<lambda>x. x \<noteq> c) s)) else None)"

definition rightmost :: "char \<Rightarrow> string \<Rightarrow> nat option" where
  "rightmost c s =
     (if c \<in> set s then Some (length s - 1 - length (takeWhile (\<lambda>x. x \<noteq> c) (rev s)))
      else None)"

definition greedy_span :: "string \<Rightarrow> string option" where
  "greedy_span raw =
     (case leftmost lbrace raw of
        None \<Rightarrow> None
      | Some i \<Rightarrow>
          (case rightmost rbrace raw of
             None \<Rightarrow> None
           | Some j \<Rightarrow> if i < j then Some (take (Suc j - i) (drop i raw)) else None))"

subsection \<open>The round-trip scenario\<close>

text \<open>The response and the result of the round-trip scenario of the specification.\<close>

definition round_trip_raw :: string where
  \<open>round_trip_raw = ''Sure! {"criteria_scores":{"accuracy":4,"empathy_and_tone":3,"clarity":5,"actionability":4,"escalation_awareness":2},"overall_score":18,"coaching_summary":"Be more proactive about escalation.","suggested_1on1_questions":["What blocked escalation?"]} Hope this helps!''\<close>

definition round_trip_result :: json where
  "round_trip_result =
     JObject
       [(''criteria_scores'',
         JObject
           [(''accuracy'', JInt 4), (''empathy_and_tone'', JInt 3), (''clarity'', JInt 5),
            (''actionability'', JInt 4), (''escalation_awareness'', JInt 2)]),
        (''overall_score'', JInt 18),
        (''coaching_summary'', JString ''Be more proactive about escalation.''),
        (''suggested_1on1_questions'', JArray [JString ''What blocked escalation?''])]"

subsection \<open>Further responses\<close>

text \<open>
  A response whose \<^verbatim>\<open>criteria_scores\<close> lacks \<^verbatim>\<open>escalation_awareness\<close>, and one with the
  five keys in another order, after some prose.
\<close>

definition four_keys_raw :: string where
  \<open>four_keys_raw = ''{"criteria_scores":{"accuracy":4,"empathy_and_tone":3,"clarity":5,"actionability":4},"overall_score":16}''\<close>

definition five_keys_raw :: string where
  \<open>five_keys_raw = ''Scores: {"overall_score":18,"criteria_scores":{"clarity":5,"accuracy":4,"escalation_awareness":2,"empathy_and_tone":3,"actionability":4}}''\<close>

text \<open>
  A response with the required keys whose values are not what the rubric asks for: scores
  that are a string, out of range, negative, \<^verbatim>\<open>null\<close> and a list, an overall score that is
  not their sum, and a single string for the questions.
\<close>

definition unchecked_raw :: string where
  \<open>unchecked_raw = ''{"criteria_scores":{"accuracy":"high","empathy_and_tone":9,"clarity":-1,"actionability":null,"escalation_awareness":[5]},"overall_score":99,"suggested_1on1_questions":"none"}''\<close>

definition unchecked_result :: json where
  "unchecked_result =
     JObject
       [(''criteria_scores'',
         JObject
           [(''accuracy'', JString ''high''), (''empathy_and_tone'', JInt 9),
            (''clarity'', JInt (- 1)), (''actionability'', JNull),
            (''escalation_awareness'', JArray [JInt 5])]),
        (''overall_score'', JInt 99),
        (''suggested_1on1_questions'', JString ''none'')]"

subsection \<open>The ROI estimator\<close>

text \<open>
  The three \<^verbatim>\<open>st.number_input\<close> widgets are given integer bounds and defaults, so they
  return Python integers within their bounds; the two products follow.
\<close>

record roi =
  weekly_hours :: int
  weekly_savings :: int

definition roi_estimator :: "int \<Rightarrow> int \<Rightarrow> int \<Rightarrow> roi" where
  "roi_estimator managers hrs_saved_per_mgr hourly_cost =
     (let wh = managers * hrs_saved_per_mgr;
          ws = wh * hourly_cost
      in \<lparr>weekly_hours = wh, weekly_savings = ws\<rparr>)"

section \<open>Properties\<close>

subsection \<open>The search finds the first opening and the last closing brace\<close>

lemma braces_differ: "lbrace \<noteq> rbrace"
  by (simp add: lbrace_def rbrace_def)

lemma greedy_to_rbrace_None: "greedy_to_rbrace s = None \<longleftrightarrow> rbrace \<notin> set s"
  by (induction s) (auto split: option.splits)

lemma greedy_to_rbrace_absent: "rbrace \<notin> set s \<Longrightarrow> greedy_to_rbrace s = None"
  by (simp add: greedy_to_rbrace_None)

lemma greedy_to_rbrace_last:
  "rbrace \<notin> set post \<Longrightarrow> greedy_to_rbrace (body @ rbrace # post) = Some (body @ [rbrace])"
  by (induction body) (simp_all add: greedy_to_rbrace_absent)

lemma re_search_no_rbrace: "rbrace \<notin> set s \<Longrightarrow> re_search s = None"
  by (induction s) (simp_all add: greedy_to_rbrace_absent)

lemma re_search_no_lbrace: "lbrace \<notin> set s \<Longrightarrow> re_search s = None"
  by (induction s) (auto split: option.splits)

lemma re_search_skip:
  "lbrace \<notin> set pre \<Longrightarrow> re_search (pre @ s) = re_search s"
  by (induction pre) (auto split: option.splits)

lemma re_search_at_lbrace:
  "re_search (lbrace # cs) = map_option (\<lambda>m. lbrace # m) (greedy_to_rbrace cs)"
proof (cases "greedy_to_rbrace cs")
  case None
  then have "rbrace \<notin> set cs" by (simp add: greedy_to_rbrace_None)
  then show ?thesis by (simp add: None re_search_no_rbrace)
next
  case (Some m)
  then show ?thesis by simp
qed

lemma re_search_decomp:
  assumes "lbrace \<notin> set pre" "rbrace \<notin> set post"
  shows "re_search (pre @ lbrace # body @ rbrace # post) = Some (lbrace # body @ [rbrace])"
  using assms by (simp add: re_search_skip re_search_at_lbrace greedy_to_rbrace_last del: re_search.simps)

lemma re_search_no_rbrace_after:
  assumes "lbrace \<notin> set pre" "rbrace \<notin> set cs"
  shows "re_search (pre @ lbrace # cs) = None"
  using assms by (simp add: re_search_skip re_search_at_lbrace greedy_to_rbrace_absent del: re_search.simps)

lemma takeWhile_all: "c \<notin> set xs \<Longrightarrow> takeWhile (\<lambda>x. x \<noteq> c) xs = xs"
  by (induction xs) auto

lemma leftmost_decomp:
  "c \<notin> set pre \<Longrightarrow> leftmost c (pre @ c # rest) = Some (length pre)"
  by (simp add: leftmost_def takeWhile_tail takeWhile_all)

lemma rightmost_decomp:
  "c \<notin> set post \<Longrightarrow> rightmost c (xs @ c # post) = Some (length xs)"
  by (simp add: rightmost_def takeWhile_tail takeWhile_all)

lemma leftmost_None: "c \<notin> set s \<Longrightarrow> leftmost c s = None"
  by (simp add: leftmost_def)

lemma rightmost_None: "c \<notin> set s \<Longrightarrow> rightmost c s = None"
  by (simp add: rightmost_def)

lemma re_search_greedy_span: "re_search raw = greedy_span raw"
proof (cases "lbrace \<in> set raw")
  case False
  then show ?thesis by (simp add: re_search_no_lbrace greedy_span_def leftmost_None)
next
  case True
  then obtain pre cs where raw: "raw = pre @ lbrace # cs" and pre: "lbrace \<notin> set pre"
    by (auto dest: split_list_first)
  have left: "leftmost lbrace raw = Some (length pre)"
    using pre by (simp add: raw leftmost_decomp)
  show ?thesis
  proof (cases "rbrace \<in> set cs")
    case True
    then obtain body post where cs: "cs = body @ rbrace # post" and post: "rbrace \<notin> set post"
      by (auto dest: split_list_last)
    have "raw = (pre @ lbrace # body) @ rbrace # post" by (simp add: raw cs)
    then have right: "rightmost rbrace raw = Some (length (pre @ lbrace # body))"
      using post rightmost_decomp by metis
    have "re_search raw = Some (lbrace # body @ [rbrace])"
      using pre post by (simp add: raw cs re_search_decomp)
    moreover have "greedy_span raw = Some (lbrace # body @ [rbrace])"
      by (simp add: greedy_span_def left right) (simp add: raw cs)
    ultimately show ?thesis by simp
  next
    case False
    then have none: "re_search raw = None"
      using pre by (simp add: raw re_search_no_rbrace_after)
    show ?thesis
    proof (cases "rbrace \<in> set pre")
      case False
      with \<open>rbrace \<notin> set cs\<close> have "rbrace \<notin> set raw"
        by (simp add: raw braces_differ[symmetric])
      then show ?thesis by (simp add: none greedy_span_def left rightmost_None)
    next
      case True
      then obtain xs post where p: "pre = xs @ rbrace # post" and post: "rbrace \<notin> set post"
        by (auto dest: split_list_last)
      have "raw = xs @ rbrace # (post @ lbrace # cs)" by (simp add: raw p)
      moreover have "rbrace \<notin> set (post @ lbrace # cs)"
        using post \<open>rbrace \<notin> set cs\<close> by (simp add: braces_differ[symmetric])
      ultimately have right: "rightmost rbrace raw = Some (length xs)"
        using rightmost_decomp by metis
      show ?thesis by (simp add: none greedy_span_def left right p)
    qed
  qed
qed

text \<open>The positions \<open>leftmost\<close> and \<open>rightmost\<close> return are the ones their names say.\<close>

lemma leftmost_Some_iff:
  "leftmost c s = Some i \<longleftrightarrow> i < length s \<and> s ! i = c \<and> (\<forall>k<i. s ! k \<noteq> c)"
proof
  assume l: "leftmost c s = Some i"
  then have "c \<in> set s" by (auto simp: leftmost_def split: if_splits)
  then obtain pre rest where s: "s = pre @ c # rest" and pre: "c \<notin> set pre"
    by (auto dest: split_list_first)
  with l have "i = length pre" by (simp add: leftmost_decomp)
  then show "i < length s \<and> s ! i = c \<and> (\<forall>k<i. s ! k \<noteq> c)"
    using pre by (auto simp: s nth_append)
next
  assume r: "i < length s \<and> s ! i = c \<and> (\<forall>k<i. s ! k \<noteq> c)"
  then have s: "s = take i s @ c # drop (Suc i) s"
    by (metis id_take_nth_drop)
  have "c \<notin> set (take i s)"
    using r by (auto simp: in_set_conv_nth)
  then have "leftmost c (take i s @ c # drop (Suc i) s) = Some (length (take i s))"
    by (rule leftmost_decomp)
  then show "leftmost c s = Some i"
    using r s by simp
qed

lemma rightmost_Some_iff:
  "rightmost c s = Some j \<longleftrightarrow>
     j < length s \<and> s ! j = c \<and> (\<forall>k. j < k \<and> k < length s \<longrightarrow> s ! k \<noteq> c)"
proof
  assume l: "rightmost c s = Some j"
  then have "c \<in> set s" by (auto simp: rightmost_def split: if_splits)
  then obtain xs post where s: "s = xs @ c # post" and post: "c \<notin> set post"
    by (auto dest: split_list_last)
  with l have j: "j = length xs" by (simp add: rightmost_decomp)
  have "s ! k \<noteq> c" if "j < k" "k < length s" for k
  proof -
    have "s ! k = post ! (k - Suc (length xs))"
      using that by (simp add: s j nth_append nth_Cons')
    moreover have "k - Suc (length xs) < length post"
      using that by (simp add: s j)
    ultimately show ?thesis using post by (metis nth_mem)
  qed
  then show "j < length s \<and> s ! j = c \<and> (\<forall>k. j < k \<and> k < length s \<longrightarrow> s ! k \<noteq> c)"
    by (simp add: s j)
next
  assume r: "j < length s \<and> s ! j = c \<and> (\<forall>k. j < k \<and> k < length s \<longrightarrow> s ! k \<noteq> c)"
  then have s: "s = take j s @ c # drop (Suc j) s"
    by (metis id_take_nth_drop)
  have "c \<notin> set (drop (Suc j) s)"
    using r by (auto simp: in_set_conv_nth)
  then have "rightmost c (take j s @ c # drop (Suc j) s) = Some (length (take j s))"
    by (rule rightmost_decomp)
  then show "rightmost c s = Some j"
    using r s by simp
qed

lemma re_search_Some_iff:
  "(\<exists>span. re_search raw = Some span) \<longleftrightarrow>
     (\<exists>i j. i < j \<and> j < length raw \<and> raw ! i = lbrace \<and> raw ! j = rbrace)"
proof
  assume "\<exists>span. re_search raw = Some span"
  then obtain span where "greedy_span raw = Some span"
    by (auto simp: re_search_greedy_span)
  then obtain i j where "leftmost lbrace raw = Some i" "rightmost rbrace raw = Some j" "i < j"
    by (auto simp: greedy_span_def split: option.splits if_splits)
  then show "\<exists>i j. i < j \<and> j < length raw \<and> raw ! i = lbrace \<and> raw ! j = rbrace"
    by (auto simp: leftmost_Some_iff rightmost_Some_iff)
next
  assume "\<exists>i j. i < j \<and> j < length raw \<and> raw ! i = lbrace \<and> raw ! j = rbrace"
  then obtain i j where ij: "i < j" "j < length raw" "raw ! i = lbrace" "raw ! j = rbrace"
    by blast
  then have "lbrace \<in> set raw" by (metis less_trans nth_mem)
  then obtain pre cs where raw: "raw = pre @ lbrace # cs" and pre: "lbrace \<notin> set pre"
    by (auto dest: split_list_first)
  have "length pre \<le> i"
  proof (rule ccontr)
    assume "\<not> length pre \<le> i"
    then have "i < length pre" by simp
    then have "raw ! i \<in> set pre" by (simp add: raw nth_append)
    then show False using pre ij(3) by simp
  qed
  then have "raw ! j = cs ! (j - Suc (length pre))" "j - Suc (length pre) < length cs"
    using ij(1,2) by (simp_all add: raw nth_append nth_Cons')
  then have "rbrace \<in> set cs" using ij(4) by (metis nth_mem)
  then obtain m where "greedy_to_rbrace cs = Some m"
    by (cases "greedy_to_rbrace cs") (auto simp: greedy_to_rbrace_None)
  then show "\<exists>span. re_search raw = Some span"
    using pre by (simp add: raw re_search_skip re_search_at_lbrace del: re_search.simps)
qed

subsection \<open>Evaluation against a fixed response\<close>

lemma evaluate_ticket_canned:
  "evaluate_ticket (canned raw) ticket_text =
     (case re_search raw of
        None \<Rightarrow> Inl (NoJsonFound (no_json_message raw))
      | Some span \<Rightarrow>
          (case json_loads span of
             None \<Rightarrow> Inl MalformedJson
           | Some data \<Rightarrow> basic_validation data))"
  by (simp add: evaluate_ticket_def canned_def)

lemma evaluate_ticket_no_text:
  "evaluate_ticket (\<lambda>prompt. None) ticket_text = Inl (NoJsonFound (no_json_message []))"
  by (simp add: evaluate_ticket_def)

subsection \<open>The validation of an object\<close>

lemma basic_validation_object:
  "basic_validation (JObject kvs) =
     (if ''criteria_scores'' \<notin> fst ` set kvs \<or> ''overall_score'' \<notin> fst ` set kvs
      then Inl (MissingKeys (JObject kvs))
      else
        (case map_of kvs ''criteria_scores'' of
           None \<Rightarrow> Inl KeyError
         | Some (JObject cs) \<Rightarrow>
             if set (map fst cs) = set QA_CRITERIA then Inr (JObject kvs)
             else Inl CriteriaMismatch
         | Some _ \<Rightarrow> Inl AttributeError))"
  by (simp add: basic_validation_def split: option.splits json.splits)

lemma map_of_Some_key: "map_of kvs k = Some v \<Longrightarrow> k \<in> fst ` set kvs"
  by (metis map_of_eq_None_iff option.distinct(1))

lemma basic_validation_Inr:
  "basic_validation data = Inr d \<longleftrightarrow>
     d = data \<and>
     (\<exists>kvs cs. data = JObject kvs \<and> ''overall_score'' \<in> fst ` set kvs \<and>
        map_of kvs ''criteria_scores'' = Some (JObject cs) \<and>
        set (map fst cs) = set QA_CRITERIA)"
proof (cases data)
  case (JObject kvs)
  show ?thesis
    unfolding JObject basic_validation_object
    by (auto split: option.splits json.splits if_splits dest: map_of_Some_key)
qed (auto simp: basic_validation_def split: sum.splits)

lemma basic_validation_not_NoJsonFound: "basic_validation data \<noteq> Inl (NoJsonFound msg)"
proof (cases data)
  case (JObject kvs)
  show ?thesis
    unfolding JObject basic_validation_object by (simp split: option.splits json.splits)
qed (auto simp: basic_validation_def split: sum.splits)

subsection \<open>The parsed span is a dictionary\<close>

text \<open>
  The span starts with an opening brace, so what \<open>json_loads\<close> returns for it is an
  object. The cases of \<open>py_in\<close> and \<open>py_getitem\<close> for other values are therefore never
  taken by \<open>evaluate_ticket\<close>, and it raises neither \<open>TypeError\<close> nor \<open>KeyError\<close>.
\<close>

lemma parse_members_object:
  "parse_members acc s = Some (v, k) \<Longrightarrow> \<exists>kvs. v = JObject kvs"
proof (induction "length s" arbitrary: acc s v k rule: less_induct)
  case less
  show ?case
  proof (cases s)
    case Nil
    with less.prems show ?thesis by simp
  next
    case (Cons c cs)
    have ih: "\<exists>kvs. v' = JObject kvs"
      if "parse_members acc' (drop n cs) = Some (v', k')" for acc' n v' k'
      using less.hyps [of "drop n cs" acc' v' k'] that by (simp add: Cons)
    show ?thesis
      using less.prems unfolding Cons
      by (auto simp: Let_def split: if_splits option.splits prod.splits dest: ih)
  qed
qed

lemma json_loads_lbrace_object:
  assumes "json_loads (lbrace # cs) = Some d"
  shows "\<exists>kvs. d = JObject kvs"
proof -
  have ws: "ws_len (lbrace # cs) = 0"
    by (simp add: ws_len_def is_ws_def lbrace_def)
  have nb: "\<not> starts_with utf8_bom (lbrace # cs)"
    by (simp add: starts_with_def utf8_bom_def lbrace_def)
  from assms obtain k where "parse_value (lbrace # cs) = Some (d, k)"
    by (auto simp: json_loads_def ws nb Let_def split: option.splits if_splits)
  then show ?thesis
    by (auto simp: Let_def dquote_def lbrace_def split: if_splits dest: parse_members_object)
qed

lemma re_search_starts_with_lbrace:
  "re_search raw = Some span \<Longrightarrow> \<exists>cs. span = lbrace # cs"
  by (induction raw) (auto split: option.splits if_splits)

lemma parsed_span_is_object:
  "re_search raw = Some span \<Longrightarrow> json_loads span = Some d \<Longrightarrow> \<exists>kvs. d = JObject kvs"
  using json_loads_lbrace_object re_search_starts_with_lbrace by blast

lemma evaluate_ticket_errors:
  "evaluate_ticket (canned raw) ticket_text \<noteq> Inl TypeError \<and>
   evaluate_ticket (canned raw) ticket_text \<noteq> Inl KeyError"
proof (cases "re_search raw")
  case None
  then show ?thesis by (simp add: evaluate_ticket_canned)
next
  case (Some span)
  show ?thesis
  proof (cases "json_loads span")
    case None
    with Some show ?thesis by (simp add: evaluate_ticket_canned)
  next
    case (Some d)
    with \<open>re_search raw = Some span\<close> obtain kvs where d: "d = JObject kvs"
      using parsed_span_is_object by blast
    have "basic_validation (JObject kvs) \<noteq> Inl TypeError \<and>
          basic_validation (JObject kvs) \<noteq> Inl KeyError"
      unfolding basic_validation_object
      by (auto split: option.splits json.splits simp: map_of_eq_None_iff)
    with Some \<open>re_search raw = Some span\<close> d show ?thesis
      by (simp add: evaluate_ticket_canned)
  qed
qed

subsection \<open>Claims\<close>

text \<open>
  C1. For every raw response, the span that \<^verbatim>\<open>evaluate_ticket\<close> extracts is the text from
  the leftmost opening brace through the rightmost closing brace, one greedy span, and
  the JSON parser is applied to this span and to nothing else.
\<close>

theorem extracted_span_is_greedy:
  "re_search raw = greedy_span raw \<and>
   evaluate_ticket (canned raw) ticket_text =
     (case greedy_span raw of
        None \<Rightarrow> Inl (NoJsonFound (no_json_message raw))
      | Some span \<Rightarrow>
          (case json_loads span of
             None \<Rightarrow> Inl MalformedJson
           | Some data \<Rightarrow> basic_validation data))"
  by (simp add: evaluate_ticket_canned re_search_greedy_span)

text \<open>The search on a response with two brace pairs takes both in one span.\<close>

theorem extracted_span_is_greedy_witness:
  "re_search ''see {a} and {b} here'' = Some ''{a} and {b}'' \<and>
   evaluate_ticket (canned ''see {a} and {b} here'') ''Hi'' = Inl MalformedJson"
proof -
  have span: "greedy_span ''see {a} and {b} here'' = Some ''{a} and {b}''"
    by code_simp
  have bad: "json_loads ''{a} and {b}'' = None"
    by code_simp
  show ?thesis
    using extracted_span_is_greedy [of "''see {a} and {b} here''" "''Hi''"]
    by (simp only: span bad option.case)
qed

text \<open>
  C2. On the response of the round-trip scenario the evaluation succeeds; the result has
  the five criterion scores as given, the overall score 18 and the one suggested
  question, and the prose around the object is ignored.
\<close>

theorem round_trip_scenario:
  "evaluate_ticket (canned round_trip_raw) ticket_text = Inr round_trip_result \<and>
   py_getitem round_trip_result ''criteria_scores'' =
     Inr (JObject [(''accuracy'', JInt 4), (''empathy_and_tone'', JInt 3), (''clarity'', JInt 5),
                   (''actionability'', JInt 4), (''escalation_awareness'', JInt 2)]) \<and>
   py_getitem round_trip_result ''overall_score'' = Inr (JInt 18) \<and>
   py_getitem round_trip_result ''suggested_1on1_questions'' =
     Inr (JArray [JString ''What blocked escalation?''])"
proof -
  have "evaluate_ticket (canned round_trip_raw) [] = Inr round_trip_result"
    by code_simp
  then have "evaluate_ticket (canned round_trip_raw) ticket_text = Inr round_trip_result"
    by (simp add: evaluate_ticket_canned)
  then show ?thesis
    by (simp add: round_trip_result_def)
qed

text \<open>The scenario with a transcript.\<close>

theorem round_trip_scenario_witness:
  "evaluate_ticket (canned round_trip_raw) ''Customer: the sync fails.'' = Inr round_trip_result"
  using round_trip_scenario [of "''Customer: the sync fails.''"] by (rule conjunct1)

text \<open>
  C3. A response without an opening and without a closing brace (the empty response and
  a response without text included) fails with \<open>NoJsonFound\<close>, and the message contains
  the raw response.
\<close>

theorem no_braces_no_json_found:
  assumes "lbrace \<notin> set raw" and "rbrace \<notin> set raw"
  shows "evaluate_ticket (canned raw) ticket_text = Inl (NoJsonFound (no_json_message raw)) \<and>
         sublist raw (no_json_message raw) \<and>
         evaluate_ticket (\<lambda>prompt. None) ticket_text = Inl (NoJsonFound (no_json_message []))"
proof -
  have "suffix raw (no_json_message raw)"
    unfolding no_json_message_def by (intro suffix_appendI suffix_order.refl)
  then have "sublist raw (no_json_message raw)"
    by (rule suffix_imp_sublist)
  then show ?thesis
    using assms
    by (simp add: evaluate_ticket_canned evaluate_ticket_no_text re_search_no_lbrace)
qed

text \<open>A refusal in plain prose.\<close>

theorem no_braces_no_json_found_witness:
  "lbrace \<notin> set ''I cannot score this.'' \<and> rbrace \<notin> set ''I cannot score this.'' \<and>
   evaluate_ticket (canned ''I cannot score this.'') ''Hi'' =
     Inl (NoJsonFound (no_json_message ''I cannot score this.''))"
proof -
  have l: "lbrace \<notin> set ''I cannot score this.''" by (simp add: lbrace_def)
  have r: "rbrace \<notin> set ''I cannot score this.''" by (simp add: rbrace_def)
  show ?thesis
    using l r no_braces_no_json_found [OF l r, of "''Hi''"] by (simp only: simp_thms)
qed

text \<open>
  C4, as stated: the truncated response \<^verbatim>\<open>{"criteria_scores": {"accuracy":5,\<close> fails with
  \<open>MalformedJson\<close>. It does not: no closing brace is left in it, the search finds no span
  and the error is \<open>NoJsonFound\<close>.
\<close>

theorem truncated_object_counterexample:
  \<open>evaluate_ticket (canned ''{"criteria_scores": {"accuracy":5,'') ''Hi'' \<noteq> Inl MalformedJson \<and>
   evaluate_ticket (canned ''{"criteria_scores": {"accuracy":5,'') ''Hi'' =
     Inl (NoJsonFound (no_json_message ''{"criteria_scores": {"accuracy":5,''))\<close>
proof -
  have \<open>re_search ''{"criteria_scores": {"accuracy":5,'' = None\<close>
    by code_simp
  then show ?thesis by (simp add: evaluate_ticket_canned)
qed

text \<open>
  C4, amended. A response in which a closing brace follows the first opening brace, and
  whose span from the one to the last of the other is not JSON, fails with
  \<open>MalformedJson\<close>; a response in which no closing brace follows the first opening brace
  fails with \<open>NoJsonFound\<close>.
\<close>

theorem truncated_object_errors:
  "(lbrace \<notin> set pre \<and> rbrace \<notin> set post \<and> json_loads (lbrace # body @ [rbrace]) = None \<longrightarrow>
      evaluate_ticket (canned (pre @ lbrace # body @ rbrace # post)) ticket_text = Inl MalformedJson) \<and>
   (lbrace \<notin> set pre \<and> rbrace \<notin> set rest \<longrightarrow>
      evaluate_ticket (canned (pre @ lbrace # rest)) ticket_text =
        Inl (NoJsonFound (no_json_message (pre @ lbrace # rest))))"
  by (simp add: evaluate_ticket_canned re_search_decomp re_search_no_rbrace_after
      del: re_search.simps)

text \<open>
  A truncation that keeps the inner closing brace is malformed JSON; the truncation of
  the claim, which keeps none, is no JSON at all.
\<close>

theorem truncated_object_errors_witness:
  \<open>evaluate_ticket (canned ''{"criteria_scores": {"accuracy":5}'') ''Hi'' = Inl MalformedJson \<and>
   evaluate_ticket (canned ''{"criteria_scores": {"accuracy":5,'') ''Hi'' =
     Inl (NoJsonFound (no_json_message ''{"criteria_scores": {"accuracy":5,''))\<close>
proof -
  have bad: \<open>json_loads (lbrace # ''"criteria_scores": {"accuracy":5'' @ [rbrace]) = None\<close>
    by code_simp
  have s1: \<open>''{"criteria_scores": {"accuracy":5}'' = [] @ lbrace # ''"criteria_scores": {"accuracy":5'' @ rbrace # []\<close>
    by (simp add: lbrace_def rbrace_def)
  have s2: \<open>''{"criteria_scores": {"accuracy":5,'' = [] @ lbrace # ''"criteria_scores": {"accuracy":5,''\<close>
    by (simp add: lbrace_def)
  have r: \<open>rbrace \<notin> set ''"criteria_scores": {"accuracy":5,''\<close>
    by (simp add: rbrace_def)
  have a: \<open>evaluate_ticket (canned ''{"criteria_scores": {"accuracy":5}'') ''Hi'' = Inl MalformedJson\<close>
    unfolding s1
    using truncated_object_errors [of "[]" "[]" \<open>''"criteria_scores": {"accuracy":5''\<close> "''Hi''" "[]"] bad
    by simp
  have b: \<open>evaluate_ticket (canned ''{"criteria_scores": {"accuracy":5,'') ''Hi'' =
     Inl (NoJsonFound (no_json_message ''{"criteria_scores": {"accuracy":5,''))\<close>
    unfolding s2
    using truncated_object_errors [of "[]" "[]" "[]" "''Hi''" \<open>''"criteria_scores": {"accuracy":5,''\<close>] r
    by simp
  show ?thesis using a b by (rule conjI)
qed

text \<open>
  C5, as stated: for every parsed object with the keys \<^verbatim>\<open>criteria_scores\<close> and
  \<^verbatim>\<open>overall_score\<close> the evaluation either succeeds or fails with \<open>CriteriaMismatch\<close>,
  according to the key set of \<^verbatim>\<open>criteria_scores\<close>. It does not when the value of
  \<^verbatim>\<open>criteria_scores\<close> is not an object: \<^verbatim>\<open>.keys()\<close> raises \<open>AttributeError\<close>.
\<close>

theorem criteria_key_set_decides_counterexample:
  \<open>evaluate_ticket (canned ''{"criteria_scores": 5, "overall_score": 1}'') ''Hi'' = Inl AttributeError\<close>
  by code_simp

text \<open>
  C5, amended. For every parsed object with both keys whose \<^verbatim>\<open>criteria_scores\<close> is an
  object, the evaluation succeeds exactly when the key set of \<^verbatim>\<open>criteria_scores\<close> is the
  rubric set (in any order, nothing extra, nothing missing), returning the parsed object,
  and fails with \<open>CriteriaMismatch\<close> otherwise; when \<^verbatim>\<open>criteria_scores\<close> is any other
  value, it fails with \<open>AttributeError\<close>.
\<close>

theorem criteria_key_set_decides:
  assumes "re_search raw = Some span"
    and "json_loads span = Some (JObject kvs)"
    and "''overall_score'' \<in> fst ` set kvs"
    and "map_of kvs ''criteria_scores'' = Some v"
  shows "evaluate_ticket (canned raw) ticket_text =
     (case v of
        JObject cs \<Rightarrow>
          if set (map fst cs) = set QA_CRITERIA then Inr (JObject kvs) else Inl CriteriaMismatch
      | _ \<Rightarrow> Inl AttributeError)"
proof -
  have "''criteria_scores'' \<in> fst ` set kvs"
    using assms(4) by (rule map_of_Some_key)
  then show ?thesis
    using assms by (simp add: evaluate_ticket_canned basic_validation_object split: json.splits)
qed

text \<open>Four of the five keys are a mismatch; the five keys in another order are accepted.\<close>

theorem criteria_key_set_decides_witness:
  "evaluate_ticket (canned four_keys_raw) ''Hi'' = Inl CriteriaMismatch \<and>
   evaluate_ticket (canned five_keys_raw) ''Hi'' =
     Inr (JObject [(''overall_score'', JInt 18),
                   (''criteria_scores'',
                    JObject [(''clarity'', JInt 5), (''accuracy'', JInt 4),
                             (''escalation_awareness'', JInt 2), (''empathy_and_tone'', JInt 3),
                             (''actionability'', JInt 4)])])"
proof -
  let ?cs4 = "[(''accuracy'', JInt 4), (''empathy_and_tone'', JInt 3), (''clarity'', JInt 5),
               (''actionability'', JInt 4)]"
  let ?kvs4 = "[(''criteria_scores'', JObject ?cs4), (''overall_score'', JInt 16)]"
  let ?cs5 = "[(''clarity'', JInt 5), (''accuracy'', JInt 4), (''escalation_awareness'', JInt 2),
               (''empathy_and_tone'', JInt 3), (''actionability'', JInt 4)]"
  let ?kvs5 = "[(''overall_score'', JInt 18), (''criteria_scores'', JObject ?cs5)]"
  have s4: "re_search four_keys_raw = Some four_keys_raw" by code_simp
  have p4: "json_loads four_keys_raw = Some (JObject ?kvs4)" by code_simp
  have o4: "''overall_score'' \<in> fst ` set ?kvs4" by simp
  have c4: "map_of ?kvs4 ''criteria_scores'' = Some (JObject ?cs4)" by simp
  have k4: "set (map fst ?cs4) \<noteq> set QA_CRITERIA" by code_simp
  have s5: "re_search five_keys_raw = Some (drop 8 five_keys_raw)" by code_simp
  have p5: "json_loads (drop 8 five_keys_raw) = Some (JObject ?kvs5)" by code_simp
  have o5: "''overall_score'' \<in> fst ` set ?kvs5" by simp
  have c5: "map_of ?kvs5 ''criteria_scores'' = Some (JObject ?cs5)" by simp
  have k5: "set (map fst ?cs5) = set QA_CRITERIA" by code_simp
  show ?thesis
    using criteria_key_set_decides [OF s4 p4 o4 c4, of "''Hi''"]
      criteria_key_set_decides [OF s5 p5 o5 c5, of "''Hi''"] k4 k5
    by (simp only: json.case if_True if_False simp_thms)
qed

text \<open>
  C6. For every parsed object in which \<^verbatim>\<open>criteria_scores\<close> or \<^verbatim>\<open>overall_score\<close> is absent,
  the evaluation fails with \<open>MissingKeys\<close>, whatever the key that is present holds: the
  criterion keys are not looked at.
\<close>

theorem missing_top_level_key:
  assumes "re_search raw = Some span"
    and "json_loads span = Some (JObject kvs)"
    and "''criteria_scores'' \<notin> fst ` set kvs \<or> ''overall_score'' \<notin> fst ` set kvs"
  shows "evaluate_ticket (canned raw) ticket_text = Inl (MissingKeys (JObject kvs))"
  using assms by (simp add: evaluate_ticket_canned basic_validation_object)

text \<open>
  Either key alone; the \<^verbatim>\<open>criteria_scores\<close> of the first response would not pass the
  comparison of the criterion keys.
\<close>

theorem missing_top_level_key_witness:
  \<open>evaluate_ticket (canned ''{"criteria_scores": {"accuracy": 5}}'') ''Hi'' =
     Inl (MissingKeys (JObject [(''criteria_scores'', JObject [(''accuracy'', JInt 5)])])) \<and>
   evaluate_ticket (canned ''{"overall_score": 18}'') ''Hi'' =
     Inl (MissingKeys (JObject [(''overall_score'', JInt 18)]))\<close>
proof -
  let ?a = \<open>''{"criteria_scores": {"accuracy": 5}}''\<close>
  let ?ka = "[(''criteria_scores'', JObject [(''accuracy'', JInt 5)])]"
  let ?b = \<open>''{"overall_score": 18}''\<close>
  let ?kb = "[(''overall_score'', JInt 18)]"
  have sa: "re_search ?a = Some ?a" by code_simp
  have pa: "json_loads ?a = Some (JObject ?ka)" by code_simp
  have ma: "''criteria_scores'' \<notin> fst ` set ?ka \<or> ''overall_score'' \<notin> fst ` set ?ka" by simp
  have sb: "re_search ?b = Some ?b" by code_simp
  have pb: "json_loads ?b = Some (JObject ?kb)" by code_simp
  have mb: "''criteria_scores'' \<notin> fst ` set ?kb \<or> ''overall_score'' \<notin> fst ` set ?kb" by simp
  show ?thesis
    using missing_top_level_key [OF sa pa ma, of "''Hi''"]
      missing_top_level_key [OF sb pb mb, of "''Hi''"]
    by (rule conjI)
qed

text \<open>
  C7. The evaluation returns a value exactly when the span parses to an object that has
  the key \<^verbatim>\<open>overall_score\<close> and an object with the rubric keys under \<^verbatim>\<open>criteria_scores\<close>,
  and the value returned is the parsed object itself: no condition is put on the values
  of the scores, on \<^verbatim>\<open>overall_score\<close> or on any other field, and nothing is recomputed.
\<close>

theorem result_is_parsed_object:
  "evaluate_ticket (canned raw) ticket_text = Inr d \<longleftrightarrow>
     (\<exists>span kvs cs. re_search raw = Some span \<and> json_loads span = Some d \<and> d = JObject kvs \<and>
        ''overall_score'' \<in> fst ` set kvs \<and>
        map_of kvs ''criteria_scores'' = Some (JObject cs) \<and>
        set (map fst cs) = set QA_CRITERIA)"
  by (auto simp: evaluate_ticket_canned basic_validation_Inr split: option.splits)

text \<open>Scores of any type and range, a wrong sum and a scalar for the questions pass.\<close>

theorem result_is_parsed_object_witness:
  "evaluate_ticket (canned unchecked_raw) ''Hi'' = Inr unchecked_result"
proof -
  let ?cs = "[(''accuracy'', JString ''high''), (''empathy_and_tone'', JInt 9),
            (''clarity'', JInt (- 1)), (''actionability'', JNull),
            (''escalation_awareness'', JArray [JInt 5])]"
  let ?kvs = "[(''criteria_scores'', JObject ?cs), (''overall_score'', JInt 99),
        (''suggested_1on1_questions'', JString ''none'')]"
  have s: "re_search unchecked_raw = Some unchecked_raw" by code_simp
  have p: "json_loads unchecked_raw = Some unchecked_result" by code_simp
  have d: "unchecked_result = JObject ?kvs" by (simp add: unchecked_result_def)
  have o: "''overall_score'' \<in> fst ` set ?kvs" by simp
  have c: "map_of ?kvs ''criteria_scores'' = Some (JObject ?cs)" by simp
  have k: "set (map fst ?cs) = set QA_CRITERIA" by code_simp
  show ?thesis
    using s p d o c k
    by (intro result_is_parsed_object [THEN iffD2] exI conjI)
qed

text \<open>
  C8, as stated: the prompt is the instruction block, a delimiter and the transcript.
  No delimiter makes that an equation: the transcript is followed by a newline.
\<close>

theorem prompt_is_guide_delimiter_transcript_counterexample:
  "\<not> (\<exists>d. \<forall>t. build_prompt t = SYSTEM_GUIDE @ d @ t)"
proof
  assume "\<exists>d. \<forall>t. build_prompt t = SYSTEM_GUIDE @ d @ t"
  then obtain d where d: "\<And>t. build_prompt t = SYSTEM_GUIDE @ d @ t" by blast
  from d [of "[]"] have "d = transcript_heading @ [nl]"
    by (simp add: build_prompt_def)
  with d [of "''a''"] have "''a'' @ [nl] = [nl] @ ''a''"
    by (simp add: build_prompt_def)
  then show False by (simp add: nl_def)
qed

text \<open>
  C8, amended. For every transcript the prompt is the constant instruction block, the
  delimiter (an empty line and the heading line), the transcript unchanged and one final
  newline; the transcript stands right after the delimiter. The composition is a total
  function to strings: it has no error value.
\<close>

theorem prompt_layout:
  "build_prompt ticket_text = SYSTEM_GUIDE @ transcript_heading @ ticket_text @ [nl] \<and>
   take (length ticket_text) (drop (length (SYSTEM_GUIDE @ transcript_heading)) (build_prompt ticket_text))
     = ticket_text \<and>
   sublist ticket_text (build_prompt ticket_text)"
proof -
  have "build_prompt ticket_text = (SYSTEM_GUIDE @ transcript_heading) @ ticket_text @ [nl]"
    by (simp add: build_prompt_def)
  then show ?thesis
    by (metis append_eq_conv_conj append_assoc sublist_appendI)
qed

text \<open>The prompt of a one-line transcript.\<close>

theorem prompt_layout_witness:
  "build_prompt ''Customer: the sync fails.'' =
     SYSTEM_GUIDE @ transcript_heading @ ''Customer: the sync fails.'' @ [nl]"
  using prompt_layout [of "''Customer: the sync fails.''"] by (rule conjunct1)

text \<open>
  C9. For managers in [1,500], hours saved in [1,20] and hourly cost in [20,300] the
  weekly hours are managers times hours and the weekly savings are weekly hours times
  cost (so between 1 and 10000, and between 20 and 3000000); 10, 4 and 70 give 40 and
  2800.
\<close>

theorem roi_products:
  assumes "1 \<le> managers" "managers \<le> 500"
    and "1 \<le> hrs" "hrs \<le> 20"
    and "20 \<le> cost" "cost \<le> 300"
  shows "weekly_hours (roi_estimator managers hrs cost) = managers * hrs \<and>
         weekly_savings (roi_estimator managers hrs cost) =
           weekly_hours (roi_estimator managers hrs cost) * cost \<and>
         1 \<le> weekly_hours (roi_estimator managers hrs cost) \<and>
         weekly_hours (roi_estimator managers hrs cost) \<le> 10000 \<and>
         20 \<le> weekly_savings (roi_estimator managers hrs cost) \<and>
         weekly_savings (roi_estimator managers hrs cost) \<le> 3000000 \<and>
         weekly_hours (roi_estimator 10 4 70) = 40 \<and>
         weekly_savings (roi_estimator 10 4 70) = 2800"
proof -
  have h1: "1 * 1 \<le> managers * hrs" using assms by (intro mult_mono) simp_all
  have h2: "managers * hrs \<le> 500 * 20" using assms by (intro mult_mono) simp_all
  have s1: "1 * 20 \<le> (managers * hrs) * cost" using assms h1 by (intro mult_mono) simp_all
  have s2: "(managers * hrs) * cost \<le> 10000 * 300" using assms h1 h2 by (intro mult_mono) simp_all
  show ?thesis
    using h1 h2 s1 s2 by (simp add: roi_estimator_def Let_def)
qed

text \<open>The scenario of the specification lies within the bounds.\<close>

theorem roi_products_witness:
  "(1::int) \<le> 10 \<and> (10::int) \<le> 500 \<and> (1::int) \<le> 4 \<and> (4::int) \<le> 20 \<and> (20::int) \<le> 70 \<and>
   (70::int) \<le> 300 \<and>
   weekly_hours (roi_estimator 10 4 70) = 40 \<and> weekly_savings (roi_estimator 10 4 70) = 2800"
  using roi_products [of 10 4 70] by simp

text \<open>
  C10. The extraction succeeds exactly when some opening brace stands before some closing
  brace, and \<open>NoJsonFound\<close> is raised exactly when none does; so \<^verbatim>\<open>} text {\<close>, which has
  both braces, raises \<open>NoJsonFound\<close>.
\<close>

theorem search_succeeds_iff_brace_order:
  "((\<exists>span. re_search raw = Some span) \<longleftrightarrow>
      (\<exists>i j. i < j \<and> j < length raw \<and> raw ! i = lbrace \<and> raw ! j = rbrace)) \<and>
   ((\<exists>msg. evaluate_ticket (canned raw) ticket_text = Inl (NoJsonFound msg)) \<longleftrightarrow>
      \<not> (\<exists>i j. i < j \<and> j < length raw \<and> raw ! i = lbrace \<and> raw ! j = rbrace)) \<and>
   evaluate_ticket (canned ''} text {'') ticket_text =
     Inl (NoJsonFound (no_json_message ''} text {''))"
proof -
  have a: "(\<exists>msg. evaluate_ticket (canned raw) ticket_text = Inl (NoJsonFound msg)) \<longleftrightarrow>
      \<not> (\<exists>span. re_search raw = Some span)"
    by (auto simp: evaluate_ticket_canned basic_validation_not_NoJsonFound split: option.splits)
  have "re_search ''} text {'' = None" by code_simp
  then have b: "evaluate_ticket (canned ''} text {'') ticket_text =
     Inl (NoJsonFound (no_json_message ''} text {''))"
    by (simp add: evaluate_ticket_canned)
  show ?thesis
    using a b re_search_Some_iff [of raw] by simp
qed

text \<open>Both braces occur in the response, in the wrong order.\<close>

theorem search_succeeds_iff_brace_order_witness:
  "lbrace \<in> set ''} text {'' \<and> rbrace \<in> set ''} text {'' \<and>
   evaluate_ticket (canned ''} text {'') ''Hi'' = Inl (NoJsonFound (no_json_message ''} text {''))"
proof -
  have "lbrace \<in> set ''} text {''" "rbrace \<in> set ''} text {''"
    by (simp_all add: lbrace_def rbrace_def)
  then show ?thesis
    using search_succeeds_iff_brace_order [of "''} text {''" "''Hi''"] by (simp only: simp_thms)
qed

end
